theory Spec2Isabelle
  imports Main
begin

section \<open>The arXiv notebook: from one flat table to five relational tables\<close>

text \<open>
  The notebook \<^verbatim>\<open>arxiv_processing.ipynb\<close> has two parts. The first filters the arXiv
  metadata for the mathematics submissions and saves them as \<^verbatim>\<open>arxiv-math.csv\<close>. The
  second, which its text introduces with ``start from here if you already have the
  arxiv-math csv'', reads that file back with \<^verbatim>\<open>pd.read_csv\<close> and derives from the
  frame \<^verbatim>\<open>arxiv_math\<close> the tables Submission, Category, Author, Submission-Author and
  Submission-Category, saving each as it is built.

  A data frame is modelled as the list of its rows, a column as a list, a Python
  exception as the left summand of a sum. The functions of pandas and of the Python
  library the notebook calls (\<^verbatim>\<open>str.split\<close>, \<^verbatim>\<open>str.find\<close>, slicing,
  \<^verbatim>\<open>startswith\<close>, \<^verbatim>\<open>apply\<close>, \<^verbatim>\<open>explode\<close>, \<^verbatim>\<open>isnull\<close>, \<^verbatim>\<open>dict(zip(..))\<close>, the
  reading of a text field by \<^verbatim>\<open>read_csv\<close>) are written out; the date parser of
  \<^verbatim>\<open>dateutil\<close> and the iteration order of a Python \<^verbatim>\<open>set\<close> are parameters.

  The filter is modelled on the decoded documents. Everything else is modelled on the
  frame \<^verbatim>\<open>arxiv_math\<close> as \<^verbatim>\<open>read_csv\<close> returns it: a text cell is either text or NaN
  (an empty field and the strings pandas takes for missing values are read as NaN), and
  the columns \<^verbatim>\<open>versions\<close> and \<^verbatim>\<open>authors_parsed\<close> are shown as the lists their text
  evaluates to. Reading the lines of the metadata file and reading \<^verbatim>\<open>arxiv-math.csv\<close>
  are not modelled (\<^verbatim>\<open>read_csv\<close> itself raises on the file that the first part saves
  when no document passes the filter).
\<close>

subsection \<open>Exceptions\<close>

datatype error = IndexError | ParserError | TypeError | ValueError | KeyError "string \<times> string"

subsection \<open>Python strings and slices\<close>

text \<open>\<^verbatim>\<open>s.split(sep)\<close> for a one-character separator: every occurrence cuts, so two
  adjacent separators give an empty token and the empty string gives one empty token.\<close>

fun split :: "string \<Rightarrow> char \<Rightarrow> string list" where
  "split [] sep = [[]]"
| "split (c # cs) sep =
     (if c = sep then [] # split cs sep
      else (case split cs sep of
              [] \<Rightarrow> [[c]]
            | w # ws \<Rightarrow> (c # w) # ws))"

text \<open>\<^verbatim>\<open>s.find(c)\<close> for a one-character needle: the index of the first occurrence,
  and \<open>-1\<close> when there is none.\<close>

definition find_chr :: "string \<Rightarrow> char \<Rightarrow> int" where
  "find_chr s c =
     (if c \<in> set s then int (length (takeWhile (\<lambda>x. x \<noteq> c) s)) else - 1)"

text \<open>\<^verbatim>\<open>s[:k]\<close>: a negative bound counts from the end.\<close>

definition slice_to :: "'a list \<Rightarrow> int \<Rightarrow> 'a list" where
  "slice_to s k = (if k < 0 then take (nat (int (length s) + k)) s else take (nat k) s)"

text \<open>\<^verbatim>\<open>s[k:]\<close> for a natural number \<open>k\<close>.\<close>

definition slice_from :: "'a list \<Rightarrow> nat \<Rightarrow> 'a list" where
  "slice_from s k = drop k s"

definition startswith :: "string \<Rightarrow> string \<Rightarrow> bool" where
  "startswith s p = (take (length p) s = p)"

subsection \<open>pandas: apply, explode, isnull\<close>

text \<open>\<^verbatim>\<open>Series.apply(f)\<close>: the function is called on the cells in order, and the
  first exception ends the call.\<close>

fun apply_series :: "('a \<Rightarrow> error + 'b) \<Rightarrow> 'a list \<Rightarrow> error + 'b list" where
  "apply_series f [] = Inr []"
| "apply_series f (x # xs) =
     (case f x of
        Inl e \<Rightarrow> Inl e
      | Inr y \<Rightarrow> (case apply_series f xs of
                   Inl e \<Rightarrow> Inl e
                 | Inr ys \<Rightarrow> Inr (y # ys)))"

text \<open>\<^verbatim>\<open>explode\<close>: one row per element of a list cell, the other columns repeated;
  an empty list gives one row whose cell is NaN (\<open>None\<close> here).\<close>

fun explode :: "('k \<times> 'a list) list \<Rightarrow> ('k \<times> 'a option) list" where
  "explode [] = []"
| "explode ((k, []) # rows) = (k, None) # explode rows"
| "explode ((k, x # xs) # rows) = map (\<lambda>y. (k, Some y)) (x # xs) @ explode rows"

text \<open>\<^verbatim>\<open>Series.explode\<close>, the same on a single column.\<close>

fun explode_series :: "'a list list \<Rightarrow> 'a option list" where
  "explode_series [] = []"
| "explode_series ([] # cells) = None # explode_series cells"
| "explode_series ((x # xs) # cells) = map Some (x # xs) @ explode_series cells"

text \<open>\<^verbatim>\<open>dict(pairs)\<close>: the pairs are stored in order, a later one replacing an
  earlier one with the same key.\<close>

definition dict_of :: "('k \<times> 'v) list \<Rightarrow> ('k \<rightharpoonup> 'v)" where
  "dict_of kvs = fold (\<lambda>(k, v) m. m(k \<mapsto> v)) kvs Map.empty"

text \<open>The strings that \<^verbatim>\<open>read_csv\<close> reads as NaN when no \<^verbatim>\<open>na_values\<close> are given
  (the list of the pandas manual; \<^verbatim>\<open>None\<close> is on it since pandas 2.0), and the reading
  of one text field. A column read with \<^verbatim>\<open>dtype\<close> \<^verbatim>\<open>str\<close> is read in the same way.\<close>

definition na_values :: "string list" where
  "na_values =
     ['''', ''#N/A'', ''#N/A N/A'', ''#NA'', ''-1.#IND'', ''-1.#QNAN'', ''-NaN'', ''-nan'',
      ''1.#IND'', ''1.#QNAN'', ''<NA>'', ''N/A'', ''NA'', ''NULL'', ''NaN'', ''None'',
      ''n/a'', ''nan'', ''null'']"

definition read_field :: "string \<Rightarrow> string option" where
  "read_field s = (if s \<in> set na_values then None else Some s)"

text \<open>\<^verbatim>\<open>to_csv\<close> writes a missing cell as the empty field and a text cell as its text;
  \<open>reload_field\<close> is what \<^verbatim>\<open>read_csv\<close> then makes of an optional text cell.\<close>

definition reload_field :: "string option \<Rightarrow> string option" where
  "reload_field c = read_field (case c of None \<Rightarrow> [] | Some s \<Rightarrow> s)"

text \<open>\<^verbatim>\<open>to_csv\<close> writes an integer cell in decimal.\<close>

fun nat_field :: "nat \<Rightarrow> string" where
  "nat_field n =
     (if n < 10 then [''0123456789'' ! n]
      else nat_field (n div 10) @ [''0123456789'' ! (n mod 10)])"

definition int_field :: "int \<Rightarrow> string" where
  "int_field i = (if i < 0 then CHR ''-'' # nat_field (nat (- i)) else nat_field (nat i))"

definition isnull :: "'a option \<Rightarrow> bool" where
  "isnull c = (case c of None \<Rightarrow> True | Some _ \<Rightarrow> False)"

definition astype_int :: "bool \<Rightarrow> int" where
  "astype_int b = (if b then 1 else 0)"

subsection \<open>The input table\<close>

text \<open>One row, of the decoded metadata or of the frame \<^verbatim>\<open>arxiv_math\<close>. In the frame
  \<open>paper_id\<close> is the identifier cell as \<^verbatim>\<open>read_csv\<close> left it (a number where it took
  the text of the identifier for one), and \<open>categories\<close> is text: a saved record has
  passed the filter, so the field holds a token with the text \<^verbatim>\<open>math\<close> and is not read
  as NaN.\<close>

record version =
  version_label :: string
  created :: string
  version_size :: string

text \<open>An element of \<^verbatim>\<open>authors_parsed\<close> is the list [surname, given name, suffix]: three
  strings, so that \<^verbatim>\<open>x[:2]\<close> is the pair of the first two.\<close>

type_synonym author = "string \<times> string \<times> string"

record raw_record =
  paper_id :: string
  submitter :: "string option"
  authors :: "string option"
  title :: "string option"
  comments :: "string option"
  journal_ref :: "string option"
  doi :: "string option"
  report_no :: "string option"
  categories :: string
  license :: "string option"
  abstract :: "string option"
  versions :: "version list"
  update_date :: "string option"
  authors_parsed :: "author list"

subsection \<open>Filtering out the maths submissions\<close>

fun isMathCategory_loop :: "string list \<Rightarrow> bool" where
  "isMathCategory_loop [] = False"
| "isMathCategory_loop (cat # cats) =
     (if slice_to cat (find_chr cat CHR ''.'') = ''math'' then True
      else isMathCategory_loop cats)"

definition isMathCategory :: "string \<Rightarrow> bool" where
  "isMathCategory cs = isMathCategory_loop (split cs CHR '' '')"

text \<open>\<^verbatim>\<open>loadArxivData\<close> with \<^verbatim>\<open>cols=None\<close>: the documents that pass the filter, in
  the order of the file. The model is of the loop over the decoded documents; reading
  the lines and decoding them is left out (the notebook calls \<^verbatim>\<open>json.loads\<close> without
  importing \<^verbatim>\<open>json\<close>).\<close>

fun loadArxivData :: "raw_record list \<Rightarrow> (string \<Rightarrow> bool) \<Rightarrow> raw_record list" where
  "loadArxivData [] catFilter = []"
| "loadArxivData (doc # f) catFilter =
     (if catFilter (categories doc) then doc # loadArxivData f catFilter
      else loadArxivData f catFilter)"

subsection \<open>Submission\<close>

datatype date = Date int int int

datatype datetime = Datetime int int int int int int

fun datetime_date :: "datetime \<Rightarrow> date" where
  "datetime_date (Datetime y m d hh mm ss) = Date y m d"

text \<open>The cell \<^verbatim>\<open>lambda x : datetime.date(parser.parse(x[0]['created']))\<close>.
  The parser is a parameter; \<open>None\<close> stands for its ParserError.\<close>

fun submission_date :: "(string \<Rightarrow> datetime option) \<Rightarrow> version list \<Rightarrow> error + date" where
  "submission_date parse [] = Inl IndexError"
| "submission_date parse (v # vs) =
     (case parse (created v) of
        None \<Rightarrow> Inl ParserError
      | Some dt \<Rightarrow> Inr (datetime_date dt))"

text \<open>\<^verbatim>\<open>1 - arxiv_math['journal-ref'].isnull().astype('int')\<close>, on one cell.\<close>

definition journal_ref_flag :: "string option \<Rightarrow> int" where
  "journal_ref_flag c = 1 - astype_int (isnull c)"

record submission_row =
  sub_id :: string
  sub_submission_date :: date
  sub_title :: "string option"
  sub_abstract :: "string option"
  sub_journal_ref :: int
  sub_comments :: "string option"

definition submission_of :: "raw_record \<Rightarrow> date \<Rightarrow> submission_row" where
  "submission_of r d =
     \<lparr>sub_id = paper_id r, sub_submission_date = d, sub_title = title r,
      sub_abstract = abstract r, sub_journal_ref = journal_ref_flag (journal_ref r),
      sub_comments = comments r\<rparr>"

definition submission ::
  "(string \<Rightarrow> datetime option) \<Rightarrow> raw_record list \<Rightarrow> error + submission_row list" where
  "submission parse arxiv_math =
     (case apply_series (submission_date parse) (map versions arxiv_math) of
        Inl e \<Rightarrow> Inl e
      | Inr dates \<Rightarrow> Inr (map (\<lambda>(r, d). submission_of r d) (zip arxiv_math dates)))"

text \<open>The closing cell reads \<^verbatim>\<open>data/submission.csv\<close> back, its \<^verbatim>\<open>journal-ref\<close> column
  with \<^verbatim>\<open>dtype\<close> \<^verbatim>\<open>str\<close>, and applies \<^verbatim>\<open>1 - isnull().astype('int')\<close> to that column
  again. \<open>resave_flag\<close> is what it makes of a flag that the Submission cells saved.\<close>

definition resave_flag :: "int \<Rightarrow> int" where
  "resave_flag f = journal_ref_flag (read_field (int_field f))"

text \<open>The records on which the date cell does not raise.\<close>

definition date_ok :: "(string \<Rightarrow> datetime option) \<Rightarrow> raw_record \<Rightarrow> bool" where
  "date_ok parse r = (case versions r of [] \<Rightarrow> False | v # vs \<Rightarrow> parse (created v) \<noteq> None)"

subsection \<open>Category\<close>

definition category_items :: "(string \<times> string) list" where
  "category_items =
     [(''AC'', ''Commutative Algebra''),
      (''AG'', ''Algebraic Geometry''),
      (''AP'', ''Analysis of PDEs''),
      (''AT'', ''Algebraic Topology''),
      (''CA'', ''Classicial Analysis and ODES''),
      (''CO'', ''Combinatorics''),
      (''CT'', ''Category Theory''),
      (''CV'', ''Complex Variables''),
      (''DG'', ''Differential Geometry''),
      (''DS'', ''Dynamical Systems''),
      (''FA'', ''Functional Analysis''),
      (''GM'', ''General Mathematics''),
      (''GN'', ''General Topology''),
      (''GR'', ''Group Theory''),
      (''GT'', ''Geometric Topology''),
      (''HO'', ''History and Overview''),
      (''IT'', ''Information Theory''),
      (''KT'', ''K-Theory and Homology''),
      (''LO'', ''Logic''),
      (''MG'', ''Metric Geometry''),
      (''MP'', ''Mathematical Physics''),
      (''NA'', ''Numerical Analysis''),
      (''NT'', ''Number Theory''),
      (''OA'', ''Operator Algebras''),
      (''OC'', ''Optimization and Control''),
      (''PR'', ''Probability''),
      (''QA'', ''Quantum Algebra''),
      (''RA'', ''Rings and Algebras''),
      (''RT'', ''Representation Theory''),
      (''SG'', ''Symplectic Geometry''),
      (''SP'', ''Spectral Theory''),
      (''ST'', ''Statistics Theory'')]"

definition category_dict :: "string \<rightharpoonup> string" where
  "category_dict = dict_of category_items"

text \<open>The table \<^verbatim>\<open>pd.DataFrame(category_dict.items(), ...)\<close>: the keys of the literal
  are distinct, so its items are the pairs as written.\<close>

definition category :: "(string \<times> string) list" where
  "category = category_items"

subsection \<open>Author\<close>

definition names_list :: "raw_record list \<Rightarrow> author option list" where
  "names_list arxiv_math = explode_series (map authors_parsed arxiv_math)"

text \<open>\<^verbatim>\<open>tuple(x[:2])\<close>: the first two components of an author; the NaN that
  \<^verbatim>\<open>explode\<close> leaves for an empty list is a float and cannot be sliced.\<close>

fun name_key :: "author option \<Rightarrow> error + (string \<times> string)" where
  "name_key None = Inl TypeError"
| "name_key (Some (sn, fn, suffix)) = Inr (sn, fn)"

text \<open>The order in which Python iterates over a \<^verbatim>\<open>set\<close> built from a sequence is not
  fixed by the language. It is a parameter \<open>set_order\<close>, of which only this is known:
  every element once, and no other.\<close>

definition set_iteration :: "('a list \<Rightarrow> 'a list) \<Rightarrow> bool" where
  "set_iteration set_order \<longleftrightarrow>
     (\<forall>xs. distinct (set_order xs) \<and> set (set_order xs) = set xs)"

definition unique_names ::
  "((string \<times> string) list \<Rightarrow> (string \<times> string) list) \<Rightarrow> raw_record list
     \<Rightarrow> error + (string \<times> string) list" where
  "unique_names set_order arxiv_math =
     (case apply_series name_key (names_list arxiv_math) of
        Inl e \<Rightarrow> Inl e
      | Inr keys \<Rightarrow> Inr (set_order keys))"

record author_row =
  author_id :: nat
  surname :: string
  first_name :: string

text \<open>The data frame \<^verbatim>\<open>author\<close> as it stands at the end of its cell: the two name
  columns, and the index 0, 1, ... as \<^verbatim>\<open>author_id\<close>. (The gender column, added
  later, changes none of the three.)\<close>

definition author :: "(string \<times> string) list \<Rightarrow> author_row list" where
  "author names =
     map (\<lambda>(i, name). \<lparr>author_id = i, surname = fst name, first_name = snd name\<rparr>)
       (zip [0..<length names] names)"

subsection \<open>Submission-Author\<close>

definition author_dict :: "(string \<times> string) list \<Rightarrow> ((string \<times> string) \<rightharpoonup> nat)" where
  "author_dict names = dict_of (zip names (map author_id (author names)))"

text \<open>The cell \<^verbatim>\<open>lambda x : author_dict[tuple(x[:2])]\<close>, applied to the exploded
  column; its results become the column \<^verbatim>\<open>author_id\<close> beside the identifiers.\<close>

definition lookup_author :: "((string \<times> string) \<rightharpoonup> nat) \<Rightarrow> author option \<Rightarrow> error + nat" where
  "lookup_author adict x =
     (case name_key x of
        Inl e \<Rightarrow> Inl e
      | Inr k \<Rightarrow> (case adict k of
                   None \<Rightarrow> Inl (KeyError k)
                 | Some a \<Rightarrow> Inr a))"

definition submission_author ::
  "((string \<times> string) \<rightharpoonup> nat) \<Rightarrow> raw_record list \<Rightarrow> error + (string \<times> nat) list" where
  "submission_author adict arxiv_math =
     (let exploded = explode (map (\<lambda>r. (paper_id r, authors_parsed r)) arxiv_math)
      in case apply_series (lookup_author adict) (map snd exploded) of
           Inl e \<Rightarrow> Inl e
         | Inr ids \<Rightarrow> Inr (zip (map fst exploded) ids))"

subsection \<open>Submission-Category\<close>

text \<open>The mask \<^verbatim>\<open>.str.startswith('math')\<close> is NaN on a NaN cell, and a mask with a NaN
  cannot index a frame.\<close>

fun math_mask :: "string option \<Rightarrow> error + bool" where
  "math_mask None = Inl ValueError"
| "math_mask (Some c) = Inr (startswith c ''math'')"

text \<open>The cell \<^verbatim>\<open>lambda x : x[5:]\<close>.\<close>

fun strip_area :: "string option \<Rightarrow> error + string" where
  "strip_area None = Inl TypeError"
| "strip_area (Some c) = Inr (slice_from c 5)"

definition submission_category :: "raw_record list \<Rightarrow> error + (string \<times> string) list" where
  "submission_category arxiv_math =
     (let exploded = explode (map (\<lambda>r. (paper_id r, split (categories r) CHR '' '')) arxiv_math)
      in case apply_series math_mask (map snd exploded) of
           Inl e \<Rightarrow> Inl e
         | Inr keep \<Rightarrow>
             (let kept = map fst (filter snd (zip exploded keep))
              in case apply_series strip_area (map snd kept) of
                   Inl e \<Rightarrow> Inl e
                 | Inr codes \<Rightarrow> Inr (zip (map fst kept) codes)))"

text \<open>The exploded category column: one pair of identifier and token for every token of
  every record, in order.\<close>

definition category_tokens :: "raw_record list \<Rightarrow> (string \<times> string) list" where
  "category_tokens arxiv_math =
     concat (map (\<lambda>r. map (\<lambda>c. (paper_id r, c)) (split (categories r) CHR '' '')) arxiv_math)"

subsection \<open>The table cells, from the reloaded frame to the end\<close>

text \<open>
  What a run of the cells from ``Submission'' to the end leaves behind: the tables it has
  saved (\<open>None\<close> for a table whose \<^verbatim>\<open>to_csv\<close> was not reached) and the exception that
  ended it (\<open>None\<close> when the last cell was reached). \<open>submission_tbl\<close> is the file as
  the Submission cells save it; of the file that the closing cell saves over it, only
  the \<^verbatim>\<open>journal-ref\<close> column is modelled, as \<open>resaved_journal_ref\<close>. The gender column
  of the Author file is left out.
\<close>

record run =
  submission_tbl :: "submission_row list option"
  category_tbl :: "(string \<times> string) list option"
  author_tbl :: "author_row list option"
  submission_author_tbl :: "(string \<times> nat) list option"
  submission_category_tbl :: "(string \<times> string) list option"
  resaved_journal_ref :: "int list option"
  raised :: "error option"

definition nothing_saved :: "error \<Rightarrow> run" where
  "nothing_saved e =
     \<lparr>submission_tbl = None, category_tbl = None, author_tbl = None,
      submission_author_tbl = None, submission_category_tbl = None,
      resaved_journal_ref = None, raised = Some e\<rparr>"

text \<open>
  The cells in their order. The date cell ends with the display line
  \<^verbatim>\<open>arxiv_math.sample(5)[...]\<close>, which raises ValueError on a frame of fewer than five
  rows; the flag cell and the cell that builds \<^verbatim>\<open>submission\<close> raise nothing, so that
  testing the size after \<open>submission\<close> is testing it after the dates.
\<close>

definition notebook ::
  "(string \<Rightarrow> datetime option) \<Rightarrow> ((string \<times> string) list \<Rightarrow> (string \<times> string) list)
     \<Rightarrow> raw_record list \<Rightarrow> run" where
  "notebook parse set_order arxiv_math =
     (case submission parse arxiv_math of
        Inl e \<Rightarrow> nothing_saved e
      | Inr sub \<Rightarrow>
          if length arxiv_math < 5 then nothing_saved ValueError
          else
            (let saved =
                   \<lparr>submission_tbl = Some sub, category_tbl = Some category,
                    author_tbl = None, submission_author_tbl = None,
                    submission_category_tbl = None, resaved_journal_ref = None,
                    raised = None\<rparr>
             in case unique_names set_order arxiv_math of
                  Inl e \<Rightarrow> saved\<lparr>raised := Some e\<rparr>
                | Inr names \<Rightarrow>
                    (case submission_author (author_dict names) arxiv_math of
                       Inl e \<Rightarrow> saved\<lparr>author_tbl := Some (author names), raised := Some e\<rparr>
                     | Inr sa \<Rightarrow>
                         (case submission_category arxiv_math of
                            Inl e \<Rightarrow>
                              saved\<lparr>author_tbl := Some (author names),
                                    submission_author_tbl := Some sa, raised := Some e\<rparr>
                          | Inr sc \<Rightarrow>
                              saved\<lparr>author_tbl := Some (author names),
                                    submission_author_tbl := Some sa,
                                    submission_category_tbl := Some sc,
                                    resaved_journal_ref :=
                                      Some (map (\<lambda>r. resave_flag (sub_journal_ref r)) sub)\<rparr>))))"

subsection \<open>The wording of the specification\<close>

text \<open>A token \<^verbatim>\<open>area.subarea\<close> has the area prefix \<^verbatim>\<open>area\<close>, the text before the
  dot, and the subarea suffix \<^verbatim>\<open>subarea\<close>, the text after it; a bare token, with
  no dot, has no area prefix.\<close>

definition area_prefix :: "string \<Rightarrow> string option" where
  "area_prefix t =
     (if CHR ''.'' \<in> set t then Some (takeWhile (\<lambda>x. x \<noteq> CHR ''.'') t) else None)"

definition subarea_suffix :: "string \<Rightarrow> string" where
  "subarea_suffix t = tl (dropWhile (\<lambda>x. x \<noteq> CHR ''.'') t)"

definition has_math_token :: "string \<Rightarrow> bool" where
  "has_math_token cs = list_ex (\<lambda>t. area_prefix t = Some ''math'') (split cs CHR '' '')"

definition journal_ref_present :: "string option \<Rightarrow> bool" where
  "journal_ref_present c \<longleftrightarrow> c \<noteq> None \<and> c \<noteq> Some []"

text \<open>The pair \<^verbatim>\<open>tuple(x[:2])\<close> of an author, and the exploded author column: one pair
  of identifier and author for every position of every record's author list, in order.\<close>

definition name_pair :: "author \<Rightarrow> string \<times> string" where
  "name_pair a = (fst a, fst (snd a))"

definition author_positions :: "raw_record list \<Rightarrow> (string \<times> author) list" where
  "author_positions arxiv_math =
     concat (map (\<lambda>r. map (\<lambda>a. (paper_id r, a)) (authors_parsed r)) arxiv_math)"

definition observed_pairs :: "raw_record list \<Rightarrow> (string \<times> string) set" where
  "observed_pairs arxiv_math = (\<Union>r \<in> set arxiv_math. name_pair ` set (authors_parsed r))"

subsection \<open>Sample data\<close>

definition sample_parse :: "string \<Rightarrow> datetime option" where
  "sample_parse s =
     (if s = ''Mon, 2 Apr 2007 19:18:42 GMT'' then Some (Datetime 2007 4 2 19 18 42)
      else if s = ''Sat, 31 Mar 2007 02:26:18 GMT'' then Some (Datetime 2007 3 31 2 26 18)
      else None)"

definition sample_record :: "string \<Rightarrow> string \<Rightarrow> version list \<Rightarrow> author list \<Rightarrow> raw_record" where
  "sample_record i cats vs as =
     \<lparr>paper_id = i, submitter = None, authors = Some ''J. Smith, A. Doe'',
      title = Some ''T'', comments = None, journal_ref = None, doi = None,
      report_no = None, categories = cats, license = None, abstract = Some ''A'',
      versions = vs, update_date = Some ''2008-01-13'', authors_parsed = as\<rparr>"

definition v1 :: "string \<Rightarrow> version" where
  "v1 c = \<lparr>version_label = ''v1'', created = c, version_size = ''10kb''\<rparr>"

definition doc_a :: raw_record where
  "doc_a = sample_record ''math/0601002'' ''math.CO cs.DM'' [v1 ''Mon, 2 Apr 2007 19:18:42 GMT'']
     [(''Smith'', ''J.'', ''''), (''Smith'', ''J.'', ''Jr'')]"

definition doc_b :: raw_record where
  "doc_b = sample_record ''math/0601003'' ''math.ZZ'' [v1 ''Sat, 31 Mar 2007 02:26:18 GMT'']
     [(''Smith'', ''J.'', ''''), (''Doe'', ''A.'', '''')]"

definition doc_no_versions :: raw_record where
  "doc_no_versions = sample_record ''math/0601004'' ''math.CA'' [] [(''Doe'', ''A.'', '''')]"

definition doc_bad_stamp :: raw_record where
  "doc_bad_stamp = sample_record ''math/0601005'' ''math.CA'' [v1 ''yesterday'']
     [(''Doe'', ''A.'', '''')]"

definition doc_no_authors :: raw_record where
  "doc_no_authors = sample_record ''math/0601006'' ''math.FA''
     [v1 ''Mon, 2 Apr 2007 19:18:42 GMT''] []"

definition doc_math_ph :: raw_record where
  "doc_math_ph = sample_record ''math/0601007'' ''math-ph math.MP''
     [v1 ''Mon, 2 Apr 2007 19:18:42 GMT''] [(''Doe'', ''A.'', '''')]"

definition doc_c :: raw_record where
  "doc_c = sample_record ''math/0601009'' ''math.CA math.FA''
     [v1 ''Mon, 2 Apr 2007 19:18:42 GMT''] [(''Doe'', ''A.'', '''')]"

definition doc_d :: raw_record where
  "doc_d = sample_record ''math/0601010'' ''math.NT''
     [v1 ''Mon, 2 Apr 2007 19:18:42 GMT''] [(''Doe'', ''A.'', '''')]"

definition doc_e :: raw_record where
  "doc_e = (sample_record ''math/0601011'' ''math.AG''
     [v1 ''Sat, 31 Mar 2007 02:26:18 GMT''] [(''Smith'', ''J.'', '''')])
       \<lparr>journal_ref := Some ''J. Algebra 1 (2008)''\<rparr>"

text \<open>A frame of five rows, the least on which the display line of the date cell does
  not raise, and what the cells leave behind on it.\<close>

definition frame5 :: "raw_record list" where
  "frame5 = [doc_a, doc_b, doc_c, doc_d, doc_e]"

definition sample_run :: run where
  "sample_run =
     \<lparr>submission_tbl =
        Some [submission_of doc_a (Date 2007 4 2), submission_of doc_b (Date 2007 3 31),
              submission_of doc_c (Date 2007 4 2), submission_of doc_d (Date 2007 4 2),
              submission_of doc_e (Date 2007 3 31)],
      category_tbl = Some category,
      author_tbl =
        Some [\<lparr>author_id = 0, surname = ''Doe'', first_name = ''A.''\<rparr>,
              \<lparr>author_id = 1, surname = ''Smith'', first_name = ''J.''\<rparr>],
      submission_author_tbl =
        Some [(''math/0601002'', 1), (''math/0601002'', 1), (''math/0601003'', 1), (''math/0601003'', 0),
              (''math/0601009'', 0), (''math/0601010'', 0), (''math/0601011'', 1)],
      submission_category_tbl =
        Some [(''math/0601002'', ''CO''), (''math/0601003'', ''ZZ''), (''math/0601009'', ''CA''),
              (''math/0601009'', ''FA''), (''math/0601010'', ''NT''), (''math/0601011'', ''AG'')],
      resaved_journal_ref = Some [1, 1, 1, 1, 1],
      raised = None\<rparr>"

definition doc_bare :: raw_record where
  "doc_bare = sample_record ''math/0601008'' ''mathX''
     [v1 ''Mon, 2 Apr 2007 19:18:42 GMT''] [(''Doe'', ''A.'', '''')]"

lemmas sample_defs = sample_parse_def sample_record_def v1_def doc_a_def doc_b_def
  doc_no_versions_def doc_bad_stamp_def doc_no_authors_def doc_math_ph_def doc_c_def
  doc_d_def doc_e_def frame5_def

section \<open>Properties\<close>

subsection \<open>apply\<close>

lemma apply_series_Inr_iff:
  "apply_series f xs = Inr ys \<longleftrightarrow> map f xs = map Inr ys"
proof (induction xs arbitrary: ys)
  case Nil
  show ?case by auto
next
  case (Cons x xs)
  show ?case
  proof (cases "f x")
    case (Inl e)
    then show ?thesis by (cases ys) auto
  next
    case (Inr y)
    show ?thesis
    proof (cases "apply_series f xs")
      case (Inl e)
      have "map f xs \<noteq> map Inr zs" for zs
        using Cons.IH [of zs] Inl by simp
      then show ?thesis using Inr Inl by (cases ys) auto
    next
      case r: (Inr zs)
      then have "map f xs = map Inr zs" using Cons.IH by simp
      then show ?thesis using Inr r by (cases ys) (auto simp: inj_map_eq_map)
    qed
  qed
qed

lemma apply_series_Inl_cases:
  "apply_series f xs = Inl e \<Longrightarrow> \<exists>x \<in> set xs. f x = Inl e"
  by (induction xs) (auto split: sum.splits)

lemma apply_series_total:
  "(\<And>x. x \<in> set xs \<Longrightarrow> \<exists>y. f x = Inr y) \<Longrightarrow> \<exists>ys. apply_series f xs = Inr ys"
proof (induction xs)
  case Nil
  show ?case by simp
next
  case (Cons x xs)
  obtain y where y: "f x = Inr y" using Cons.prems [of x] by auto
  obtain ys where "apply_series f xs = Inr ys" using Cons by auto
  with y show ?case by simp
qed

subsection \<open>The filter\<close>

lemma loadArxivData_filter:
  "loadArxivData docs p = filter (\<lambda>doc. p (categories doc)) docs"
  by (induction docs) auto

subsection \<open>Submission\<close>

lemma submission_date_Inr:
  "submission_date parse x = Inr d \<longleftrightarrow>
     (\<exists>v vs dt. x = v # vs \<and> parse (created v) = Some dt \<and> d = datetime_date dt)"
  by (cases x) (auto split: option.splits)

lemma submission_date_Inl:
  "submission_date parse x = Inl e \<Longrightarrow> e = IndexError \<or> e = ParserError"
  by (cases x) (auto split: option.splits)

lemma submission_date_ok:
  "date_ok parse r \<longleftrightarrow> (\<exists>d. submission_date parse (versions r) = Inr d)"
  by (cases "versions r") (auto simp: date_ok_def split: option.splits)

lemma submission_rows:
  assumes "submission parse arxiv_math = Inr tbl"
  shows "length tbl = length arxiv_math"
    and "i < length arxiv_math \<Longrightarrow>
           \<exists>v vs dt. versions (arxiv_math ! i) = v # vs \<and> parse (created v) = Some dt \<and>
             tbl ! i = submission_of (arxiv_math ! i) (datetime_date dt)"
proof -
  from assms obtain dates where
    d: "apply_series (submission_date parse) (map versions arxiv_math) = Inr dates"
    and t: "tbl = map (\<lambda>(r, d). submission_of r d) (zip arxiv_math dates)"
    by (auto simp: submission_def split: sum.splits)
  from d have m: "map (submission_date parse) (map versions arxiv_math) = map Inr dates"
    by (simp add: apply_series_Inr_iff)
  then have len: "length dates = length arxiv_math"
    by (metis length_map)
  with t show "length tbl = length arxiv_math" by simp
  assume i: "i < length arxiv_math"
  from m have "map (submission_date parse) (map versions arxiv_math) ! i = map Inr dates ! i"
    by simp
  with i len have "submission_date parse (versions (arxiv_math ! i)) = Inr (dates ! i)"
    by simp
  then obtain v vs dt where "versions (arxiv_math ! i) = v # vs" "parse (created v) = Some dt"
    "dates ! i = datetime_date dt"
    by (auto simp: submission_date_Inr)
  moreover from t i len have "tbl ! i = submission_of (arxiv_math ! i) (dates ! i)"
    by simp
  ultimately show "\<exists>v vs dt. versions (arxiv_math ! i) = v # vs \<and> parse (created v) = Some dt \<and>
             tbl ! i = submission_of (arxiv_math ! i) (datetime_date dt)"
    by simp
qed

lemma submission_Inl:
  assumes "\<not> list_all (date_ok parse) arxiv_math"
  shows "submission parse arxiv_math = Inl IndexError \<or>
         submission parse arxiv_math = Inl ParserError"
proof (cases "submission parse arxiv_math")
  case (Inl e)
  then have "apply_series (submission_date parse) (map versions arxiv_math) = Inl e"
    by (auto simp: submission_def split: sum.splits)
  then obtain x where "submission_date parse x = Inl e"
    using apply_series_Inl_cases by blast
  then show ?thesis using Inl submission_date_Inl by blast
next
  case (Inr tbl)
  from assms obtain r where r: "r \<in> set arxiv_math" "\<not> date_ok parse r"
    by (auto simp: list_all_iff)
  then obtain i where i: "i < length arxiv_math" "arxiv_math ! i = r"
    by (auto simp: in_set_conv_nth)
  from submission_rows(2) [OF Inr i(1)] i(2) r(2) show ?thesis
    by (auto simp: date_ok_def)
qed

lemma submission_Inr:
  assumes "list_all (date_ok parse) arxiv_math"
  shows "\<exists>tbl. submission parse arxiv_math = Inr tbl"
proof -
  have "\<exists>ds. apply_series (submission_date parse) (map versions arxiv_math) = Inr ds"
  proof (rule apply_series_total)
    fix x assume "x \<in> set (map versions arxiv_math)"
    then show "\<exists>y. submission_date parse x = Inr y"
      using assms by (auto simp: list_all_iff submission_date_ok)
  qed
  then show ?thesis by (auto simp: submission_def)
qed

lemma sample_submission:
  "submission sample_parse [doc_a, doc_b] =
     Inr [submission_of doc_a (Date 2007 4 2), submission_of doc_b (Date 2007 3 31)]"
  by (simp add: submission_def sample_defs)

text \<open>
  C1. When the Submission table is built, it has one row per record of the filtered
  table, in order; the revision history of every such record is non-empty, and the
  \<open>submission_date\<close> of the record's row is the date part (the time dropped) of the
  date-time parsed from the \<open>created\<close> field of entry 0 of its \<open>versions\<close>.
\<close>

theorem submission_date_first_version:
  assumes "submission parse arxiv_math = Inr tbl" and "i < length arxiv_math"
  shows "length tbl = length arxiv_math \<and>
         sub_id (tbl ! i) = paper_id (arxiv_math ! i) \<and>
         versions (arxiv_math ! i) \<noteq> [] \<and>
         (\<exists>dt. parse (created (versions (arxiv_math ! i) ! 0)) = Some dt \<and>
               sub_submission_date (tbl ! i) = datetime_date dt)"
  using submission_rows [OF assms(1)] assms(2)
  by (fastforce simp: submission_of_def)

theorem submission_date_first_version_witness:
  "submission sample_parse [doc_a, doc_b] =
     Inr [submission_of doc_a (Date 2007 4 2), submission_of doc_b (Date 2007 3 31)] \<and>
   (1::nat) < length [doc_a, doc_b] \<and>
   versions doc_b \<noteq> [] \<and>
   sample_parse (created (versions doc_b ! 0)) = Some (Datetime 2007 3 31 2 26 18) \<and>
   sub_submission_date (submission_of doc_b (Date 2007 3 31)) = Date 2007 3 31"
proof -
  have i: "(1::nat) < length [doc_a, doc_b]" by simp
  show ?thesis
    using sample_submission i submission_date_first_version [OF sample_submission i]
    by (simp add: submission_of_def sample_defs)
qed

subsection \<open>The sample run\<close>

lemma sample_unique_names:
  "unique_names remdups [doc_a, doc_b] = Inr [(''Smith'', ''J.''), (''Doe'', ''A.'')]"
  by (simp add: unique_names_def names_list_def sample_defs)

lemma sample_author_dict:
  "author_dict [(''Smith'', ''J.''), (''Doe'', ''A.'')] =
     [(''Smith'', ''J.'') \<mapsto> 0, (''Doe'', ''A.'') \<mapsto> 1]"
  by (simp add: author_dict_def author_def dict_of_def upt_rec)

lemma sample_submission_author:
  "submission_author (author_dict [(''Smith'', ''J.''), (''Doe'', ''A.'')]) [doc_a, doc_b] =
     Inr [(''math/0601002'', 0), (''math/0601002'', 0), (''math/0601003'', 0), (''math/0601003'', 1)]"
  unfolding sample_author_dict
  by (simp add: submission_author_def lookup_author_def sample_defs)

lemma sample_author:
  "author [(''Smith'', ''J.''), (''Doe'', ''A.'')] =
     [\<lparr>author_id = 0, surname = ''Smith'', first_name = ''J.''\<rparr>,
      \<lparr>author_id = 1, surname = ''Doe'', first_name = ''A.''\<rparr>]"
  by (simp add: author_def upt_rec)

lemma frame5_submission:
  "submission sample_parse frame5 =
     Inr [submission_of doc_a (Date 2007 4 2), submission_of doc_b (Date 2007 3 31),
          submission_of doc_c (Date 2007 4 2), submission_of doc_d (Date 2007 4 2),
          submission_of doc_e (Date 2007 3 31)]"
  by (simp add: submission_def sample_defs)

lemma frame5_unique_names:
  "unique_names remdups frame5 = Inr [(''Doe'', ''A.''), (''Smith'', ''J.'')]"
  by (simp add: unique_names_def names_list_def sample_defs)

lemma frame5_author_dict:
  "author_dict [(''Doe'', ''A.''), (''Smith'', ''J.'')] =
     [(''Doe'', ''A.'') \<mapsto> 0, (''Smith'', ''J.'') \<mapsto> 1]"
  by (simp add: author_dict_def author_def dict_of_def upt_rec)

lemma frame5_author:
  "author [(''Doe'', ''A.''), (''Smith'', ''J.'')] =
     [\<lparr>author_id = 0, surname = ''Doe'', first_name = ''A.''\<rparr>,
      \<lparr>author_id = 1, surname = ''Smith'', first_name = ''J.''\<rparr>]"
  by (simp add: author_def upt_rec)

lemma frame5_submission_author:
  "submission_author (author_dict [(''Doe'', ''A.''), (''Smith'', ''J.'')]) frame5 =
     Inr [(''math/0601002'', 1), (''math/0601002'', 1), (''math/0601003'', 1), (''math/0601003'', 0),
          (''math/0601009'', 0), (''math/0601010'', 0), (''math/0601011'', 1)]"
  unfolding frame5_author_dict
  by (simp add: submission_author_def lookup_author_def sample_defs)

lemma frame5_submission_category:
  "submission_category frame5 =
     Inr [(''math/0601002'', ''CO''), (''math/0601003'', ''ZZ''), (''math/0601009'', ''CA''),
          (''math/0601009'', ''FA''), (''math/0601010'', ''NT''), (''math/0601011'', ''AG'')]"
  by (simp add: submission_category_def startswith_def slice_from_def sample_defs)

lemma resave_flag_0: "resave_flag 0 = 1"
  by (simp add: resave_flag_def int_field_def read_field_def na_values_def
      journal_ref_flag_def isnull_def astype_int_def)

lemma resave_flag_1: "resave_flag 1 = 1"
  by (simp add: resave_flag_def int_field_def read_field_def na_values_def
      journal_ref_flag_def isnull_def astype_int_def)

lemma journal_ref_flag_cases:
  "journal_ref_flag c = (if c = None then 0 else 1)"
  by (cases c) (simp_all add: journal_ref_flag_def isnull_def astype_int_def)

lemma frame5_flags:
  "map sub_journal_ref
     [submission_of doc_a (Date 2007 4 2), submission_of doc_b (Date 2007 3 31),
      submission_of doc_c (Date 2007 4 2), submission_of doc_d (Date 2007 4 2),
      submission_of doc_e (Date 2007 3 31)] = [0, 0, 0, 0, 1]"
  by (simp add: submission_of_def journal_ref_flag_cases sample_defs)

lemma resave_flag_journal_ref_flag: "resave_flag (journal_ref_flag c) = 1"
  by (simp add: journal_ref_flag_cases resave_flag_0 resave_flag_1)

lemma resave_submission_of: "resave_flag (sub_journal_ref (submission_of r d)) = 1"
  by (simp add: submission_of_def resave_flag_journal_ref_flag)

lemma sample_notebook: "notebook sample_parse remdups frame5 = sample_run"
proof -
  have n: "\<not> length frame5 < 5" by (simp add: frame5_def)
  show ?thesis
    using n
    by (simp add: notebook_def frame5_submission frame5_unique_names frame5_submission_author
        frame5_submission_category frame5_author resave_submission_of sample_run_def)
qed

subsection \<open>What a run leaves behind\<close>

lemma notebook_bad_date:
  "submission parse arxiv_math = Inl e \<Longrightarrow> notebook parse set_order arxiv_math = nothing_saved e"
  by (simp add: notebook_def)

lemma notebook_submission_tbl:
  assumes "submission_tbl (notebook parse set_order arxiv_math) = Some tbl"
  shows "submission parse arxiv_math = Inr tbl \<and> 5 \<le> length arxiv_math"
  using assms
  by (auto simp: notebook_def nothing_saved_def Let_def split: sum.splits if_splits)

lemma notebook_no_names:
  assumes "unique_names set_order arxiv_math = Inl e"
  shows "(\<exists>e'. raised (notebook parse set_order arxiv_math) = Some e') \<and>
         author_tbl (notebook parse set_order arxiv_math) = None \<and>
         submission_author_tbl (notebook parse set_order arxiv_math) = None"
  using assms
  by (auto simp: notebook_def nothing_saved_def Let_def split: sum.splits)

lemma submission_flags_resaved:
  assumes "submission parse arxiv_math = Inr tbl"
  shows "map (\<lambda>r. resave_flag (sub_journal_ref r)) tbl = replicate (length arxiv_math) 1"
proof (rule nth_equalityI)
  show "length (map (\<lambda>r. resave_flag (sub_journal_ref r)) tbl) =
          length (replicate (length arxiv_math) (1::int))"
    using submission_rows(1) [OF assms] by simp
next
  fix i assume "i < length (map (\<lambda>r. resave_flag (sub_journal_ref r)) tbl)"
  then have i: "i < length arxiv_math" using submission_rows(1) [OF assms] by simp
  from submission_rows(2) [OF assms i] i submission_rows(1) [OF assms]
  show "map (\<lambda>r. resave_flag (sub_journal_ref r)) tbl ! i = replicate (length arxiv_math) 1 ! i"
    by (auto simp: submission_of_def resave_flag_journal_ref_flag)
qed

lemma resaved_all_one:
  assumes "resaved_journal_ref (notebook parse set_order arxiv_math) = Some fs"
  shows "fs = replicate (length arxiv_math) 1"
proof -
  from assms obtain tbl where "submission parse arxiv_math = Inr tbl"
    and "fs = map (\<lambda>r. resave_flag (sub_journal_ref r)) tbl"
    by (auto simp: notebook_def nothing_saved_def Let_def split: sum.splits if_splits)
  then show ?thesis by (simp add: submission_flags_resaved)
qed

subsection \<open>A record whose date cannot be computed\<close>

text \<open>
  C4 as the specification states it fails: a record with an empty revision history, or
  with a first timestamp the parser rejects, is not set aside. The exception of the date
  cell ends the run before any table is saved, although the remaining five records alone
  run to the last cell.
\<close>

theorem bad_date_record_not_skipped:
  "notebook sample_parse remdups (doc_no_versions # frame5) = nothing_saved IndexError \<and>
   notebook sample_parse remdups (doc_bad_stamp # frame5) = nothing_saved ParserError \<and>
   raised (notebook sample_parse remdups frame5) = None \<and>
   map_option (map sub_id) (submission_tbl (notebook sample_parse remdups frame5)) =
     Some [''math/0601002'', ''math/0601003'', ''math/0601009'', ''math/0601010'', ''math/0601011'']"
proof -
  have "submission sample_parse (doc_no_versions # frame5) = Inl IndexError"
    by (simp add: submission_def sample_defs)
  moreover have "submission sample_parse (doc_bad_stamp # frame5) = Inl ParserError"
    by (simp add: submission_def sample_defs)
  ultimately show ?thesis
    by (simp add: notebook_bad_date sample_notebook)
      (simp add: sample_run_def submission_of_def sample_defs)
qed

text \<open>
  C4, amended. If some record of the frame has an empty revision history or a first
  \<open>created\<close> timestamp that the parser rejects, the run ends with the exception of the
  date cell (IndexError or the parser's error) and saves no table. No record is ever
  excluded: whenever the Submission table is saved, the date of every record of the
  frame could be computed and the table has one row for each of them, in order.
\<close>

theorem run_stops_on_bad_date:
  "(\<not> list_all (date_ok parse) arxiv_math \<longrightarrow>
      notebook parse set_order arxiv_math = nothing_saved IndexError \<or>
      notebook parse set_order arxiv_math = nothing_saved ParserError) \<and>
   (submission_tbl (notebook parse set_order arxiv_math) = Some tbl \<longrightarrow>
      list_all (date_ok parse) arxiv_math \<and>
      map sub_id tbl = map paper_id arxiv_math)"
proof (intro conjI impI)
  assume "\<not> list_all (date_ok parse) arxiv_math"
  from submission_Inl [OF this]
  show "notebook parse set_order arxiv_math = nothing_saved IndexError \<or>
        notebook parse set_order arxiv_math = nothing_saved ParserError"
    using notebook_bad_date by metis
next
  assume "submission_tbl (notebook parse set_order arxiv_math) = Some tbl"
  then have sub: "submission parse arxiv_math = Inr tbl"
    using notebook_submission_tbl by blast
  then show "list_all (date_ok parse) arxiv_math"
    using submission_Inl [of parse arxiv_math] by auto
  show "map sub_id tbl = map paper_id arxiv_math"
  proof (rule nth_equalityI)
    show "length (map sub_id tbl) = length (map paper_id arxiv_math)"
      using submission_rows(1) [OF sub] by simp
  next
    fix i assume "i < length (map sub_id tbl)"
    then have i: "i < length arxiv_math" using submission_rows(1) [OF sub] by simp
    from submission_rows(2) [OF sub i] i submission_rows(1) [OF sub]
    show "map sub_id tbl ! i = map paper_id arxiv_math ! i"
      by (auto simp: submission_of_def)
  qed
qed

theorem run_stops_on_bad_date_witness:
  "\<not> list_all (date_ok sample_parse) (doc_no_versions # frame5) \<and>
   notebook sample_parse remdups (doc_no_versions # frame5) = nothing_saved IndexError \<and>
   submission_tbl (notebook sample_parse remdups frame5) = submission_tbl sample_run \<and>
   list_all (date_ok sample_parse) frame5 \<and>
   map_option (map sub_id) (submission_tbl sample_run) = Some (map paper_id frame5)"
proof -
  have bad: "\<not> list_all (date_ok sample_parse) (doc_no_versions # frame5)"
    by (simp add: date_ok_def sample_defs)
  have stop: "notebook sample_parse remdups (doc_no_versions # frame5) =
                nothing_saved IndexError"
    by (rule notebook_bad_date) (simp add: submission_def sample_defs)
  let ?tbl = "[submission_of doc_a (Date 2007 4 2), submission_of doc_b (Date 2007 3 31),
               submission_of doc_c (Date 2007 4 2), submission_of doc_d (Date 2007 4 2),
               submission_of doc_e (Date 2007 3 31)]"
  have tbl: "submission_tbl (notebook sample_parse remdups frame5) = Some ?tbl"
    by (simp add: sample_notebook sample_run_def)
  have run: "submission_tbl sample_run = Some ?tbl"
    by (simp add: sample_run_def)
  show ?thesis
    using bad stop tbl
      run_stops_on_bad_date [of sample_parse "doc_no_versions # frame5" remdups ?tbl]
      run_stops_on_bad_date [of sample_parse frame5 remdups ?tbl]
    by (simp add: run)
qed

subsection \<open>The journal reference flag\<close>

lemma first_saved_flag:
  assumes "submission parse arxiv_math = Inr tbl" and "i < length arxiv_math"
  shows "sub_journal_ref (tbl ! i) = (if journal_ref (arxiv_math ! i) = None then 0 else 1)"
  using submission_rows(2) [OF assms]
  by (auto simp: submission_of_def journal_ref_flag_cases)

lemma empty_is_na: "[] \<in> set na_values"
  by (simp add: na_values_def)

lemma reloaded_flag:
  "journal_ref_flag (reload_field c) =
     (if c = None \<or> the c \<in> set na_values then 0 else 1)"
  by (cases c) (simp_all add: reload_field_def read_field_def journal_ref_flag_cases empty_is_na)

lemma reloaded_flag_present:
  assumes "c = None \<or> the c = [] \<or> the c \<notin> set na_values"
  shows "journal_ref_flag (reload_field c) = 1 \<longleftrightarrow> journal_ref_present c"
proof (cases c)
  case None
  then show ?thesis by (simp add: reloaded_flag journal_ref_present_def)
next
  case (Some s)
  with empty_is_na assms show ?thesis
    by (auto simp: reloaded_flag journal_ref_present_def)
qed

text \<open>
  C8: the claim is right and the notebook is not. The flag cell gives 0 to a record
  without a journal reference and 1 to one with it, but the closing cell reads the saved
  Submission file back and computes \<^verbatim>\<open>1 - isnull\<close> on the saved flags, and a saved
  0 is not null: in the file the run leaves behind every flag is 1. Before that, a
  journal reference that pandas takes for a missing value, such as \<^verbatim>\<open>N/A\<close>, has been
  read back as NaN and flagged 0.
\<close>

theorem journal_ref_flag_recomputed:
  "map journal_ref frame5 = [None, None, None, None, Some ''J. Algebra 1 (2008)''] \<and>
   map_option (map sub_journal_ref) (submission_tbl (notebook sample_parse remdups frame5)) =
     Some [0, 0, 0, 0, 1] \<and>
   resaved_journal_ref (notebook sample_parse remdups frame5) = Some [1, 1, 1, 1, 1] \<and>
   journal_ref_present (Some ''N/A'') \<and>
   reload_field (Some ''N/A'') = None \<and>
   journal_ref_flag (reload_field (Some ''N/A'')) = 0"
proof -
  have "map journal_ref frame5 = [None, None, None, None, Some ''J. Algebra 1 (2008)'']"
    by (simp add: sample_defs)
  moreover have "map_option (map sub_journal_ref)
      (submission_tbl (notebook sample_parse remdups frame5)) = Some [0, 0, 0, 0, 1]"
    using frame5_flags by (simp add: sample_notebook sample_run_def)
  moreover have "resaved_journal_ref (notebook sample_parse remdups frame5) =
      Some [1, 1, 1, 1, 1]"
    by (simp add: sample_notebook sample_run_def)
  moreover have "reload_field (Some ''N/A'') = None"
    by (simp add: reload_field_def read_field_def na_values_def)
  ultimately show ?thesis
    by (simp add: journal_ref_present_def journal_ref_flag_cases)
qed

subsection \<open>Strings\<close>

lemma split_not_Nil: "split s sep \<noteq> []"
  by (induction s) (auto split: list.splits)

lemma slice_to_find_chr:
  "slice_to t (find_chr t c) =
     (if c \<in> set t then takeWhile (\<lambda>x. x \<noteq> c) t else butlast t)"
proof (cases "c \<in> set t")
  case True
  then show ?thesis
    by (simp add: slice_to_def find_chr_def takeWhile_eq_take [symmetric])
next
  case False
  have "nat (int (length t) - 1) = length t - 1" by simp
  with False show ?thesis
    by (simp add: slice_to_def find_chr_def butlast_conv_take)
qed

lemma isMathCategory_loop_iff:
  "isMathCategory_loop cats \<longleftrightarrow>
     (\<exists>t \<in> set cats. area_prefix t = Some ''math'' \<or>
        (CHR ''.'' \<notin> set t \<and> butlast t = ''math''))"
  by (induction cats) (auto simp: slice_to_find_chr area_prefix_def split: if_splits)

lemma isMathCategory_iff:
  "isMathCategory cs \<longleftrightarrow>
     (\<exists>t \<in> set (split cs CHR '' ''). area_prefix t = Some ''math'' \<or>
        (CHR ''.'' \<notin> set t \<and> butlast t = ''math''))"
  by (simp add: isMathCategory_def isMathCategory_loop_iff)

lemma isMathCategory_dotted:
  assumes "\<And>t. t \<in> set (split cs CHR '' '') \<Longrightarrow> CHR ''.'' \<in> set t \<or> butlast t \<noteq> ''math''"
  shows "isMathCategory cs = has_math_token cs"
  using assms by (auto simp: isMathCategory_iff has_math_token_def list_ex_iff)

lemma math_token_row:
  assumes "area_prefix c = Some ''math''"
  shows "startswith c ''math'' \<and> slice_from c 5 = subarea_suffix c"
proof -
  let ?P = "\<lambda>x. x \<noteq> CHR ''.''"
  from assms have dot: "CHR ''.'' \<in> set c" and tw: "takeWhile ?P c = ''math''"
    by (auto simp: area_prefix_def split: if_splits)
  have c: "c = ''math'' @ dropWhile ?P c"
    using takeWhile_dropWhile_id [of ?P c] tw by simp
  from dot have "dropWhile ?P c \<noteq> []" by auto
  then obtain z zs where d: "dropWhile ?P c = z # zs" by (cases "dropWhile ?P c") auto
  from c d have c': "c = ''math'' @ z # zs" by simp
  have "startswith c ''math''" by (subst c') (simp add: startswith_def)
  moreover have "slice_from c 5 = zs" by (subst c') (simp add: slice_from_def)
  ultimately show ?thesis by (simp add: subarea_suffix_def d)
qed

subsection \<open>Submission-Category\<close>

lemma apply_series_map:
  "(\<And>x. x \<in> set xs \<Longrightarrow> f x = Inr (g x)) \<Longrightarrow> apply_series f xs = Inr (map g xs)"
  by (induction xs) auto

lemma explode_nonempty:
  "(\<And>k. (k, []) \<notin> set rows) \<Longrightarrow>
     explode rows = concat (map (\<lambda>(k, xs). map (\<lambda>y. (k, Some y)) xs) rows)"
proof (induction rows rule: explode.induct)
  case 1
  show ?case by simp
next
  case (2 k rows)
  from "2.prems" [of k] show ?case by simp
next
  case (3 k x xs rows)
  have "explode rows = concat (map (\<lambda>(k, xs). map (\<lambda>y. (k, Some y)) xs) rows)"
    using "3.prems" by (intro "3.IH") auto
  then show ?case by simp
qed

lemma explode_categories:
  "explode (map (\<lambda>r. (paper_id r, split (categories r) CHR '' '')) arxiv_math) =
     map (\<lambda>(i, c). (i, Some c)) (category_tokens arxiv_math)"
proof -
  have "explode (map (\<lambda>r. (paper_id r, split (categories r) CHR '' '')) arxiv_math) =
        concat (map (\<lambda>(k, xs). map (\<lambda>y. (k, Some y)) xs)
          (map (\<lambda>r. (paper_id r, split (categories r) CHR '' '')) arxiv_math))"
    by (rule explode_nonempty) (auto dest: sym simp: split_not_Nil)
  then show ?thesis
    by (simp add: category_tokens_def map_concat comp_def)
qed

lemma filter_by_mask:
  "map fst (filter snd (zip (map h ps) (map q ps))) = map h (filter q ps)"
  by (induction ps) auto

lemma submission_category_rows:
  "submission_category arxiv_math =
     Inr (map (\<lambda>(i, c). (i, slice_from c 5))
            (filter (\<lambda>(i, c). startswith c ''math'') (category_tokens arxiv_math)))"
proof -
  let ?P = "category_tokens arxiv_math"
  let ?h = "\<lambda>(i, c). (i, Some c)"
  let ?q = "\<lambda>(i, c). startswith c ''math''"
  have m: "apply_series math_mask (map snd (map ?h ps)) = Inr (map ?q ps)" for ps
    by (induction ps) auto
  have s: "apply_series strip_area (map snd (map ?h ps)) =
             Inr (map (\<lambda>(i, c). slice_from c 5) ps)" for ps
    by (induction ps) auto
  have z: "zip (map fst (map ?h ps)) (map (\<lambda>(i, c). slice_from c 5) ps) =
             map (\<lambda>(i, c). (i, slice_from c 5)) ps" for ps
    by (induction ps) auto
  show ?thesis
    unfolding submission_category_def explode_categories Let_def
    by (simp only: m filter_by_mask s z sum.case)
qed

lemma fold_update:
  "fold (\<lambda>(k, v) m. m(k \<mapsto> v)) kvs m = m ++ map_of (rev kvs)"
  by (induction kvs arbitrary: m) (auto simp: map_add_upd_left)

lemma dom_dict_of: "dom (dict_of kvs) = fst ` set kvs"
  by (simp add: dict_of_def fold_update dom_map_of_conv_image_fst)

lemma category_keys: "dom category_dict = fst ` set category"
  by (simp add: category_dict_def category_def dom_dict_of)

lemma length_category: "length category = 32"
  by (simp add: category_def category_items_def)

text \<open>
  C3 as the specification states it fails: the token \<^verbatim>\<open>math.ZZ\<close> does not end the
  run. The run reaches its last cell, and the Submission-Category table it has saved
  holds a row with the code \<^verbatim>\<open>ZZ\<close>, which the Category table does not have.
\<close>

theorem unknown_category_kept:
  "raised (notebook sample_parse remdups frame5) = None \<and>
   submission_category_tbl (notebook sample_parse remdups frame5) =
     Some [(''math/0601002'', ''CO''), (''math/0601003'', ''ZZ''), (''math/0601009'', ''CA''),
           (''math/0601009'', ''FA''), (''math/0601010'', ''NT''), (''math/0601011'', ''AG'')] \<and>
   category_tbl (notebook sample_parse remdups frame5) = Some category \<and>
   ''ZZ'' \<notin> fst ` set category"
  by (simp add: sample_notebook) (simp add: sample_run_def category_def category_items_def)

text \<open>
  C3, amended. No token ends the run: the category cell raises nothing and checks no
  code against the Category enumeration (32 entries). Every token whose area prefix is
  \<^verbatim>\<open>math\<close> gives a Submission-Category row that carries the identifier of its record
  and its subarea suffix, whether or not that code is in the enumeration. So the
  \<open>category_id\<close>s of the table are all present in the Category table only if the
  subarea suffix of every such token is one of the 32 keys.
\<close>

theorem category_ids_unchecked:
  "length category = 32 \<and>
   (\<exists>sc. submission_category arxiv_math = Inr sc \<and>
      (\<forall>(i, c) \<in> set (category_tokens arxiv_math).
         area_prefix c = Some ''math'' \<longrightarrow> (i, subarea_suffix c) \<in> set sc) \<and>
      ((\<forall>row \<in> set sc. snd row \<in> fst ` set category) \<longrightarrow>
       (\<forall>(i, c) \<in> set (category_tokens arxiv_math).
          area_prefix c = Some ''math'' \<longrightarrow> subarea_suffix c \<in> fst ` set category)))"
proof -
  let ?sc = "map (\<lambda>(i, c). (i, slice_from c 5))
               (filter (\<lambda>(i, c). startswith c ''math'') (category_tokens arxiv_math))"
  have sc: "submission_category arxiv_math = Inr ?sc"
    by (rule submission_category_rows)
  have row: "(i, subarea_suffix c) \<in> set ?sc"
    if "(i, c) \<in> set (category_tokens arxiv_math)" "area_prefix c = Some ''math''" for i c
  proof -
    from math_token_row [OF that(2)]
    have "startswith c ''math''" "slice_from c 5 = subarea_suffix c" by simp_all
    with that(1) show ?thesis by force
  qed
  have a: "\<forall>(i, c) \<in> set (category_tokens arxiv_math).
             area_prefix c = Some ''math'' \<longrightarrow> (i, subarea_suffix c) \<in> set ?sc"
  proof (intro ballI)
    fix x assume x: "x \<in> set (category_tokens arxiv_math)"
    obtain i c where ic: "x = (i, c)" by (cases x)
    have "area_prefix c = Some ''math'' \<longrightarrow> (i, subarea_suffix c) \<in> set ?sc"
      using row [of i c] x ic by blast
    then show "case x of (i, c) \<Rightarrow>
                 area_prefix c = Some ''math'' \<longrightarrow> (i, subarea_suffix c) \<in> set ?sc"
      by (simp only: ic prod.case)
  qed
  have b: "(\<forall>row \<in> set ?sc. snd row \<in> fst ` set category) \<longrightarrow>
           (\<forall>(i, c) \<in> set (category_tokens arxiv_math).
              area_prefix c = Some ''math'' \<longrightarrow> subarea_suffix c \<in> fst ` set category)"
  proof (intro impI ballI)
    fix x
    assume h: "\<forall>row \<in> set ?sc. snd row \<in> fst ` set category"
      and x: "x \<in> set (category_tokens arxiv_math)"
    obtain i c where ic: "x = (i, c)" by (cases x)
    have "area_prefix c = Some ''math'' \<longrightarrow> subarea_suffix c \<in> fst ` set category"
    proof
      assume "area_prefix c = Some ''math''"
      with x ic have "(i, subarea_suffix c) \<in> set ?sc" using row [of i c] by blast
      with h have "snd (i, subarea_suffix c) \<in> fst ` set category" by blast
      then show "subarea_suffix c \<in> fst ` set category" by (simp only: snd_conv)
    qed
    then show "case x of (i, c) \<Rightarrow>
                 area_prefix c = Some ''math'' \<longrightarrow> subarea_suffix c \<in> fst ` set category"
      by (simp only: ic prod.case)
  qed
  from sc a b have "\<exists>sc. submission_category arxiv_math = Inr sc \<and>
      (\<forall>(i, c) \<in> set (category_tokens arxiv_math).
         area_prefix c = Some ''math'' \<longrightarrow> (i, subarea_suffix c) \<in> set sc) \<and>
      ((\<forall>row \<in> set sc. snd row \<in> fst ` set category) \<longrightarrow>
       (\<forall>(i, c) \<in> set (category_tokens arxiv_math).
          area_prefix c = Some ''math'' \<longrightarrow> subarea_suffix c \<in> fst ` set category))"
    by (intro exI [of _ ?sc] conjI)
  with length_category show ?thesis by (intro conjI)
qed

theorem category_ids_unchecked_witness:
  "submission_category [doc_a] = Inr [(''math/0601002'', ''CO'')] \<and>
   category_tokens [doc_a] = [(''math/0601002'', ''math.CO''), (''math/0601002'', ''cs.DM'')] \<and>
   area_prefix ''math.CO'' = Some ''math'' \<and> subarea_suffix ''math.CO'' = ''CO'' \<and>
   area_prefix ''cs.DM'' = Some ''cs'' \<and> ''CO'' \<in> fst ` set category"
proof -
  have t: "category_tokens [doc_a] = [(''math/0601002'', ''math.CO''), (''math/0601002'', ''cs.DM'')]"
    by (simp add: category_tokens_def sample_defs)
  have k: "''CO'' \<in> fst ` set category"
    by (simp add: category_def category_items_def)
  have s: "submission_category [doc_a] = Inr [(''math/0601002'', ''CO'')]"
    by (simp add: submission_category_rows t startswith_def slice_from_def)
  show ?thesis
    using category_ids_unchecked [of "[doc_a]"] k s
    by (simp add: t area_prefix_def subarea_suffix_def)
qed

text \<open>
  C2: the claim is right and the table is not. The row filter tests
  \<^verbatim>\<open>startswith('math')\<close>, not the area before the dot as \<^verbatim>\<open>isMathCategory\<close> does,
  so the token \<^verbatim>\<open>math-ph\<close> of a retained record, which has no area prefix, gives a
  row, with the code \<^verbatim>\<open>ph\<close>.
\<close>

theorem math_ph_token_kept:
  "isMathCategory (categories doc_math_ph) \<and> \<not> isMathCategory ''math-ph'' \<and>
   category_tokens [doc_math_ph] = [(''math/0601007'', ''math-ph''), (''math/0601007'', ''math.MP'')] \<and>
   area_prefix ''math-ph'' = None \<and>
   submission_category [doc_math_ph] = Inr [(''math/0601007'', ''ph''), (''math/0601007'', ''MP'')]"
  by (simp add: isMathCategory_def find_chr_def slice_to_def category_tokens_def
      area_prefix_def submission_category_rows startswith_def slice_from_def sample_defs)

text \<open>
  C9: the claim is right and the filter is not. For a token with no dot
  \<^verbatim>\<open>cat.find(".")\<close> is \<open>-1\<close> and \<^verbatim>\<open>cat[:-1]\<close> drops the last character, so the bare
  token \<^verbatim>\<open>mathX\<close>, which has no area prefix, passes the filter (and the bare token
  \<^verbatim>\<open>math\<close> is compared as \<^verbatim>\<open>mat\<close>).
\<close>

theorem bare_token_passes_filter:
  "isMathCategory ''mathX'' \<and> \<not> has_math_token ''mathX'' \<and> \<not> isMathCategory ''math'' \<and>
   loadArxivData [doc_b, doc_bare] isMathCategory = [doc_b, doc_bare]"
  by (simp add: isMathCategory_def find_chr_def slice_to_def has_math_token_def
      area_prefix_def sample_defs doc_bare_def)

subsection \<open>Author\<close>

lemma name_key_Some: "name_key (Some a) = Inr (name_pair a)"
  by (cases a) (simp add: name_pair_def)

lemma explode_series_None: "None \<in> set (explode_series cells) \<longleftrightarrow> [] \<in> set cells"
  by (induction cells rule: explode_series.induct) auto

lemma explode_series_nonempty:
  "[] \<notin> set cells \<Longrightarrow> explode_series cells = map Some (concat cells)"
  by (induction cells rule: explode_series.induct) auto

lemma apply_name_key_Some:
  "apply_series name_key (map Some as) = Inr (map name_pair as)"
  by (induction as) (auto simp: name_key_Some)

lemma name_key_Inl: "name_key x = Inl e \<Longrightarrow> e = TypeError \<and> x = None"
  by (cases x) (auto simp: name_key_Some)

lemma apply_series_has_Inl:
  assumes "x \<in> set xs" and "f x = Inl e"
  shows "\<exists>e'. apply_series f xs = Inl e'"
proof (cases "apply_series f xs")
  case (Inl e')
  then show ?thesis by simp
next
  case (Inr ys)
  then have "map f xs = map Inr ys" by (simp add: apply_series_Inr_iff)
  then have "f ` set xs = Inr ` set ys" by (metis set_map)
  with assms have "Inl e \<in> Inr ` set ys" by force
  then show ?thesis by auto
qed

lemma apply_name_key_None:
  assumes "None \<in> set xs"
  shows "apply_series name_key xs = Inl TypeError"
proof -
  obtain e where e: "apply_series name_key xs = Inl e"
    using apply_series_has_Inl [OF assms, of name_key TypeError] by auto
  from apply_series_Inl_cases [OF e]
  obtain x where "name_key x = Inl e" by auto
  with e show ?thesis by (simp add: name_key_Inl)
qed

lemma set_concat_authors:
  "set (map name_pair (concat (map authors_parsed arxiv_math))) = observed_pairs arxiv_math"
  by (auto simp: observed_pairs_def)

lemma unique_names_empty_list:
  assumes "\<exists>r \<in> set arxiv_math. authors_parsed r = []"
  shows "unique_names set_order arxiv_math = Inl TypeError"
proof -
  from assms have "[] \<in> set (map authors_parsed arxiv_math)" by force
  then have "None \<in> set (names_list arxiv_math)"
    by (simp only: names_list_def explode_series_None)
  then show ?thesis by (simp add: unique_names_def apply_name_key_None)
qed

lemma unique_names_nonempty:
  assumes "\<forall>r \<in> set arxiv_math. authors_parsed r \<noteq> []"
  shows "unique_names set_order arxiv_math =
           Inr (set_order (map name_pair (concat (map authors_parsed arxiv_math))))"
proof -
  from assms have "[] \<notin> set (map authors_parsed arxiv_math)" by force
  then have "names_list arxiv_math = map Some (concat (map authors_parsed arxiv_math))"
    unfolding names_list_def by (rule explode_series_nonempty)
  then show ?thesis by (simp add: unique_names_def apply_name_key_Some)
qed

lemma unique_names_Inr:
  assumes "unique_names set_order arxiv_math = Inr names"
  shows "\<forall>r \<in> set arxiv_math. authors_parsed r \<noteq> []"
  using assms unique_names_empty_list [of arxiv_math set_order] by auto

lemma unique_names_props:
  assumes "set_iteration set_order" and "unique_names set_order arxiv_math = Inr names"
  shows "distinct names" and "set names = observed_pairs arxiv_math"
proof -
  from unique_names_nonempty [OF unique_names_Inr [OF assms(2)], of set_order] assms(2)
  have n: "names = set_order (map name_pair (concat (map authors_parsed arxiv_math)))"
    by simp
  from assms(1) show "distinct names" by (simp add: n set_iteration_def)
  from assms(1) have "set names = set (map name_pair (concat (map authors_parsed arxiv_math)))"
    unfolding n set_iteration_def by blast
  then show "set names = observed_pairs arxiv_math"
    by (simp only: set_concat_authors)
qed

lemma length_author: "length (author names) = length names"
  by (simp add: author_def)

lemma author_nth:
  "i < length names \<Longrightarrow>
     author names ! i = \<lparr>author_id = i, surname = fst (names ! i), first_name = snd (names ! i)\<rparr>"
  by (simp add: author_def)

lemma author_ids: "map author_id (author names) = [0..<length names]"
  by (rule nth_equalityI) (simp_all add: length_author author_nth)

lemma author_pairs: "map (\<lambda>a. (surname a, first_name a)) (author names) = names"
  by (rule nth_equalityI) (simp_all add: length_author author_nth)

subsection \<open>Submission-Author\<close>

lemma dict_of_rev: "dict_of kvs = map_of (rev kvs)"
  by (simp add: dict_of_def fold_update)

lemma dict_of_SomeD: "dict_of kvs k = Some v \<Longrightarrow> (k, v) \<in> set kvs"
  by (auto simp: dict_of_rev dest: map_of_SomeD)

lemma dict_of_SomeI:
  "distinct (map fst kvs) \<Longrightarrow> (k, v) \<in> set kvs \<Longrightarrow> dict_of kvs k = Some v"
  by (simp add: dict_of_rev rev_map [symmetric])

lemma author_dict_nth:
  assumes "distinct names" and "i < length names"
  shows "author_dict names (names ! i) = Some i"
proof -
  have "(names ! i, i) \<in> set (zip names [0..<length names])"
    using assms(2) by (auto simp: in_set_zip)
  moreover have "distinct (map fst (zip names [0..<length names]))"
    using assms(1) by simp
  ultimately show ?thesis
    by (simp add: author_dict_def author_ids dict_of_SomeI)
qed

lemma author_dict_SomeD:
  assumes "author_dict names k = Some i"
  shows "i < length names \<and> names ! i = k"
proof -
  from assms have "(k, i) \<in> set (zip names [0..<length names])"
    by (auto simp: author_dict_def author_ids dest: dict_of_SomeD)
  then show ?thesis by (auto simp: in_set_zip)
qed

lemma author_dict_member:
  assumes "distinct names" and "k \<in> set names"
  shows "\<exists>i < length names. author_dict names k = Some i \<and> names ! i = k"
  using assms author_dict_nth by (metis in_set_conv_nth)

lemma explode_authors:
  assumes "\<forall>r \<in> set arxiv_math. authors_parsed r \<noteq> []"
  shows "explode (map (\<lambda>r. (paper_id r, authors_parsed r)) arxiv_math) =
           map (\<lambda>(i, a). (i, Some a)) (author_positions arxiv_math)"
proof -
  have "explode (map (\<lambda>r. (paper_id r, authors_parsed r)) arxiv_math) =
        concat (map (\<lambda>(k, xs). map (\<lambda>y. (k, Some y)) xs)
          (map (\<lambda>r. (paper_id r, authors_parsed r)) arxiv_math))"
    using assms by (intro explode_nonempty) auto
  then show ?thesis
    by (simp add: author_positions_def map_concat comp_def)
qed

lemma explode_authors_None:
  assumes "r \<in> set arxiv_math" and "authors_parsed r = []"
  shows "None \<in> set (map snd (explode (map (\<lambda>r. (paper_id r, authors_parsed r)) arxiv_math)))"
  using assms
proof (induction arxiv_math)
  case Nil
  then show ?case by simp
next
  case (Cons x xs)
  then show ?case by (cases "authors_parsed x") auto
qed

lemma lookup_author_Some:
  "lookup_author adict (Some a) =
     (case adict (name_pair a) of None \<Rightarrow> Inl (KeyError (name_pair a)) | Some k \<Rightarrow> Inr k)"
  by (simp add: lookup_author_def name_key_Some)

lemma lookup_author_Inl:
  assumes "lookup_author adict x = Inl e"
  shows "e = TypeError \<or> (\<exists>k. e = KeyError k \<and> adict k = None)"
proof (cases x)
  case None
  with assms show ?thesis by (simp add: lookup_author_def)
next
  case (Some a)
  with assms have "adict (name_pair a) = None \<and> e = KeyError (name_pair a)"
    by (simp add: lookup_author_Some split: option.splits)
  then show ?thesis by blast
qed

lemma resolve_positions:
  assumes "\<And>a. a \<in> set as \<Longrightarrow> adict (name_pair a) \<noteq> None"
  shows "apply_series (lookup_author adict) (map Some as) =
           Inr (map (\<lambda>a. the (adict (name_pair a))) as)"
  using assms
proof (induction as)
  case Nil
  show ?case by simp
next
  case (Cons a as)
  from Cons.prems [of a] obtain k where k: "adict (name_pair a) = Some k" by auto
  have "apply_series (lookup_author adict) (map Some as) =
          Inr (map (\<lambda>a. the (adict (name_pair a))) as)"
    using Cons.prems by (intro Cons.IH) simp
  with k show ?case by (simp add: lookup_author_Some)
qed

lemma positions_observed:
  "(i, a) \<in> set (author_positions arxiv_math) \<Longrightarrow> name_pair a \<in> observed_pairs arxiv_math"
  by (auto simp: author_positions_def observed_pairs_def)

lemma zip_positions:
  "zip (map fst (map (\<lambda>(i, a). (i, Some a)) ps)) (map (\<lambda>a. the (adict (name_pair a))) (map snd ps)) =
     map (\<lambda>(i, a). (i, the (adict (name_pair a)))) ps"
  by (induction ps) auto

lemma submission_author_resolved:
  assumes "set_iteration set_order" and "unique_names set_order arxiv_math = Inr names"
  shows "submission_author (author_dict names) arxiv_math =
           Inr (map (\<lambda>(i, a). (i, the (author_dict names (name_pair a))))
                  (author_positions arxiv_math))"
proof -
  note ne = unique_names_Inr [OF assms(2)]
  note props = unique_names_props [OF assms]
  let ?ps = "author_positions arxiv_math"
  have "author_dict names (name_pair a) \<noteq> None" if "a \<in> set (map snd ?ps)" for a
  proof -
    from that obtain i where "(i, a) \<in> set ?ps" by auto
    from positions_observed [OF this] props author_dict_member [of names "name_pair a"]
    show ?thesis by auto
  qed
  then have "apply_series (lookup_author (author_dict names)) (map Some (map snd ?ps)) =
               Inr (map (\<lambda>a. the (author_dict names (name_pair a))) (map snd ?ps))"
    by (rule resolve_positions)
  moreover have "map snd (map (\<lambda>(i, a). (i, Some a)) ?ps) = map Some (map snd ?ps)"
    by (simp add: comp_def case_prod_unfold)
  ultimately show ?thesis
    unfolding submission_author_def explode_authors [OF ne] Let_def
    by (simp only: sum.case zip_positions)
qed

lemma submission_author_empty_list:
  assumes "\<exists>r \<in> set arxiv_math. authors_parsed r = []"
  shows "\<exists>e. submission_author adict arxiv_math = Inl e \<and>
             (e = TypeError \<or> (\<exists>k. e = KeyError k \<and> adict k = None))"
proof -
  let ?col = "map snd (explode (map (\<lambda>r. (paper_id r, authors_parsed r)) arxiv_math))"
  from assms obtain r where "r \<in> set arxiv_math" "authors_parsed r = []" by auto
  then have n: "None \<in> set ?col" by (rule explode_authors_None)
  have t: "lookup_author adict None = Inl TypeError"
    by (simp add: lookup_author_def)
  from apply_series_has_Inl [of None ?col "lookup_author adict" TypeError] n t
  obtain e where e: "apply_series (lookup_author adict) ?col = Inl e" by auto
  from apply_series_Inl_cases [OF e]
  obtain x where "lookup_author adict x = Inl e" by auto
  then have "e = TypeError \<or> (\<exists>k. e = KeyError k \<and> adict k = None)"
    by (rule lookup_author_Inl)
  with e show ?thesis by (simp add: submission_author_def)
qed

text \<open>
  C5. When every record of the filtered table has at least one parsed author, the
  Author table is built and has exactly one row for every distinct pair (surname, first
  name) found in the parsed author lists, the suffix dropped: no two rows carry the same
  pair, every pair found has a row and every row carries a pair that was found, and the
  \<open>author_id\<close> column is 0, 1, ..., N - 1 for N the number of distinct pairs. This holds
  for every order in which the set of pairs may be iterated.
\<close>

theorem author_table_one_row_per_pair:
  assumes "set_iteration set_order" and "\<forall>r \<in> set arxiv_math. authors_parsed r \<noteq> []"
  shows "\<exists>names. unique_names set_order arxiv_math = Inr names \<and>
           distinct (map (\<lambda>a. (surname a, first_name a)) (author names)) \<and>
           set (map (\<lambda>a. (surname a, first_name a)) (author names)) =
             observed_pairs arxiv_math \<and>
           map author_id (author names) = [0..<card (observed_pairs arxiv_math)]"
proof -
  let ?names = "set_order (map name_pair (concat (map authors_parsed arxiv_math)))"
  have u: "unique_names set_order arxiv_math = Inr ?names"
    using assms(2) by (rule unique_names_nonempty)
  note props = unique_names_props [OF assms(1) u]
  have "card (observed_pairs arxiv_math) = length ?names"
    using props distinct_card [of ?names] by simp
  then show ?thesis
    using u props by (simp only: author_pairs author_ids) blast
qed

theorem author_table_one_row_per_pair_witness:
  "set_iteration (remdups :: (string \<times> string) list \<Rightarrow> (string \<times> string) list) \<and>
   authors_parsed doc_a \<noteq> [] \<and> authors_parsed doc_b \<noteq> [] \<and>
   unique_names remdups [doc_a, doc_b] = Inr [(''Smith'', ''J.''), (''Doe'', ''A.'')] \<and>
   observed_pairs [doc_a, doc_b] = {(''Smith'', ''J.''), (''Doe'', ''A.'')} \<and>
   map author_id (author [(''Smith'', ''J.''), (''Doe'', ''A.'')]) = [0, 1]"
proof -
  have s: "set_iteration (remdups :: (string \<times> string) list \<Rightarrow> (string \<times> string) list)"
    by (simp add: set_iteration_def)
  have n: "\<forall>r \<in> set [doc_a, doc_b]. authors_parsed r \<noteq> []"
    by (simp add: sample_defs)
  have o: "observed_pairs [doc_a, doc_b] = {(''Smith'', ''J.''), (''Doe'', ''A.'')}"
    by (auto simp: observed_pairs_def name_pair_def sample_defs)
  show ?thesis
    using s n o author_table_one_row_per_pair [OF s n]
    by (simp add: sample_unique_names sample_author)
qed

text \<open>
  C6. When every record of the filtered table has at least one parsed author, the
  Submission-Author table is built and has exactly one row for every position of every
  record's parsed author list, in the order of the records and of their lists: row
  \<open>j\<close> carries the identifier of the record of position \<open>j\<close> and the \<open>author_id\<close>
  of the Author row that holds the pair (surname, first name) at that position. Nothing
  is deduplicated: the table is as long as the lists together, and two positions with
  the same pair, in one record or in two, carry the same \<open>author_id\<close>.
\<close>

theorem submission_author_one_row_per_position:
  assumes "set_iteration set_order" and "\<forall>r \<in> set arxiv_math. authors_parsed r \<noteq> []"
  shows "\<exists>names sa.
           unique_names set_order arxiv_math = Inr names \<and>
           submission_author (author_dict names) arxiv_math = Inr sa \<and>
           length sa = length (author_positions arxiv_math) \<and>
           (\<forall>j < length sa.
              fst (sa ! j) = fst (author_positions arxiv_math ! j) \<and>
              snd (sa ! j) < length (author names) \<and>
              author_id (author names ! snd (sa ! j)) = snd (sa ! j) \<and>
              (surname (author names ! snd (sa ! j)), first_name (author names ! snd (sa ! j))) =
                name_pair (snd (author_positions arxiv_math ! j))) \<and>
           (\<forall>j < length sa. \<forall>j' < length sa.
              name_pair (snd (author_positions arxiv_math ! j)) =
                name_pair (snd (author_positions arxiv_math ! j')) \<longrightarrow>
              snd (sa ! j) = snd (sa ! j'))"
proof -
  let ?names = "set_order (map name_pair (concat (map authors_parsed arxiv_math)))"
  let ?ps = "author_positions arxiv_math"
  let ?sa = "map (\<lambda>(i, a). (i, the (author_dict ?names (name_pair a)))) ?ps"
  have u: "unique_names set_order arxiv_math = Inr ?names"
    using assms(2) by (rule unique_names_nonempty)
  note props = unique_names_props [OF assms(1) u]
  have sa: "submission_author (author_dict ?names) arxiv_math = Inr ?sa"
    using assms(1) u by (rule submission_author_resolved)
  have row: "fst (?sa ! j) = fst (?ps ! j) \<and>
             snd (?sa ! j) = the (author_dict ?names (name_pair (snd (?ps ! j))))"
    if "j < length ?ps" for j
    using that by (simp add: case_prod_unfold)
  have key: "\<exists>k < length ?names. author_dict ?names (name_pair (snd (?ps ! j))) = Some k \<and>
               ?names ! k = name_pair (snd (?ps ! j))"
    if "j < length ?ps" for j
  proof -
    from that have "(fst (?ps ! j), snd (?ps ! j)) \<in> set ?ps" by simp
    from positions_observed [OF this] props
    show ?thesis using author_dict_member [of ?names] by simp
  qed
  have "fst (?sa ! j) = fst (?ps ! j) \<and>
        snd (?sa ! j) < length (author ?names) \<and>
        author_id (author ?names ! snd (?sa ! j)) = snd (?sa ! j) \<and>
        (surname (author ?names ! snd (?sa ! j)), first_name (author ?names ! snd (?sa ! j))) =
          name_pair (snd (?ps ! j))"
    if "j < length ?sa" for j
  proof -
    from that have j: "j < length ?ps" by simp
    from key [OF j] obtain k where k: "k < length ?names"
      "author_dict ?names (name_pair (snd (?ps ! j))) = Some k"
      "?names ! k = name_pair (snd (?ps ! j))" by blast
    from row [OF j] k(2) have "fst (?sa ! j) = fst (?ps ! j)" "snd (?sa ! j) = k" by simp_all
    with k(1,3) show ?thesis by (simp add: length_author author_nth)
  qed
  moreover have "snd (?sa ! j) = snd (?sa ! j')"
    if "j < length ?sa" "j' < length ?sa"
      "name_pair (snd (?ps ! j)) = name_pair (snd (?ps ! j'))" for j j'
  proof -
    from that have "j < length ?ps" "j' < length ?ps" by simp_all
    from row [OF this(1)] row [OF this(2)] that(3) show ?thesis by simp
  qed
  moreover have "length ?sa = length ?ps" by simp
  ultimately show ?thesis using u sa by blast
qed

theorem submission_author_one_row_per_position_witness:
  "set_iteration (remdups :: (string \<times> string) list \<Rightarrow> (string \<times> string) list) \<and>
   authors_parsed doc_a \<noteq> [] \<and> authors_parsed doc_b \<noteq> [] \<and>
   unique_names remdups [doc_a, doc_b] = Inr [(''Smith'', ''J.''), (''Doe'', ''A.'')] \<and>
   author_positions [doc_a, doc_b] =
     [(''math/0601002'', (''Smith'', ''J.'', '''')), (''math/0601002'', (''Smith'', ''J.'', ''Jr'')),
      (''math/0601003'', (''Smith'', ''J.'', '''')), (''math/0601003'', (''Doe'', ''A.'', ''''))] \<and>
   submission_author (author_dict [(''Smith'', ''J.''), (''Doe'', ''A.'')]) [doc_a, doc_b] =
     Inr [(''math/0601002'', 0), (''math/0601002'', 0), (''math/0601003'', 0), (''math/0601003'', 1)]"
proof -
  have s: "set_iteration (remdups :: (string \<times> string) list \<Rightarrow> (string \<times> string) list)"
    by (simp add: set_iteration_def)
  have n: "\<forall>r \<in> set [doc_a, doc_b]. authors_parsed r \<noteq> []"
    by (simp add: sample_defs)
  have p: "author_positions [doc_a, doc_b] =
     [(''math/0601002'', (''Smith'', ''J.'', '''')), (''math/0601002'', (''Smith'', ''J.'', ''Jr'')),
      (''math/0601003'', (''Smith'', ''J.'', '''')), (''math/0601003'', (''Doe'', ''A.'', ''''))]"
    by (simp add: author_positions_def sample_defs)
  show ?thesis
    using s n p submission_author_one_row_per_position [OF s n]
    by (simp add: sample_unique_names sample_submission_author)
qed

text \<open>
  C7. When the name list and the dictionary are built from the very table that
  Submission-Author then expands, every lookup \<^verbatim>\<open>author_dict[tuple(x[:2])]\<close> finds
  its key: the expansion returns a table, it never ends in a KeyError, and every
  \<open>author_id\<close> of the table is an \<open>author_id\<close> of the Author table.
\<close>

theorem author_lookup_succeeds:
  assumes "set_iteration set_order" and "unique_names set_order arxiv_math = Inr names"
  shows "(\<exists>sa. submission_author (author_dict names) arxiv_math = Inr sa \<and>
               (\<forall>row \<in> set sa. snd row \<in> author_id ` set (author names))) \<and>
         (\<forall>k. submission_author (author_dict names) arxiv_math \<noteq> Inl (KeyError k))"
proof -
  let ?ps = "author_positions arxiv_math"
  let ?sa = "map (\<lambda>(i, a). (i, the (author_dict names (name_pair a)))) ?ps"
  note props = unique_names_props [OF assms]
  have sa: "submission_author (author_dict names) arxiv_math = Inr ?sa"
    using assms by (rule submission_author_resolved)
  have "snd row \<in> author_id ` set (author names)" if "row \<in> set ?sa" for row
  proof -
    from that obtain i a where ia: "(i, a) \<in> set ?ps"
      and row: "row = (i, the (author_dict names (name_pair a)))" by auto
    from positions_observed [OF ia] props
    obtain k where k: "k < length names" "author_dict names (name_pair a) = Some k"
      using author_dict_member [of names "name_pair a"] by auto
    have "author_id ` set (author names) = set [0..<length names]"
      using author_ids [of names] by (metis set_map)
    with k row show ?thesis by simp
  qed
  with sa show ?thesis by simp
qed

theorem author_lookup_succeeds_witness:
  "set_iteration (remdups :: (string \<times> string) list \<Rightarrow> (string \<times> string) list) \<and>
   unique_names remdups [doc_a, doc_b] = Inr [(''Smith'', ''J.''), (''Doe'', ''A.'')] \<and>
   submission_author (author_dict [(''Smith'', ''J.''), (''Doe'', ''A.'')]) [doc_a, doc_b] =
     Inr [(''math/0601002'', 0), (''math/0601002'', 0), (''math/0601003'', 0), (''math/0601003'', 1)] \<and>
   author_id ` set (author [(''Smith'', ''J.''), (''Doe'', ''A.'')]) = {0, 1}"
proof -
  have s: "set_iteration (remdups :: (string \<times> string) list \<Rightarrow> (string \<times> string) list)"
    by (simp add: set_iteration_def)
  show ?thesis
    using s author_lookup_succeeds [OF s sample_unique_names]
    by (simp add: sample_unique_names sample_submission_author sample_author)
qed

text \<open>
  C10. If some record of the frame has an empty parsed author list, exploding leaves a
  NaN for it, on which \<^verbatim>\<open>x[:2]\<close> raises: the name list is not built (TypeError), the
  expansion into Submission-Author ends in an exception whatever dictionary it is given
  (TypeError, unless an earlier key is missing from that dictionary), and the run ends
  in an exception with neither the Author nor the Submission-Author table saved. The
  record is not skipped, and no table with zero rows for it is produced.
\<close>

theorem empty_author_list_raises:
  assumes "\<exists>r \<in> set arxiv_math. authors_parsed r = []"
  shows "unique_names set_order arxiv_math = Inl TypeError \<and>
         (\<exists>e. submission_author adict arxiv_math = Inl e \<and>
              (e = TypeError \<or> (\<exists>k. e = KeyError k \<and> adict k = None))) \<and>
         (\<exists>e. raised (notebook parse set_order arxiv_math) = Some e) \<and>
         author_tbl (notebook parse set_order arxiv_math) = None \<and>
         submission_author_tbl (notebook parse set_order arxiv_math) = None"
proof -
  have u: "unique_names set_order arxiv_math = Inl TypeError"
    using assms by (rule unique_names_empty_list)
  from notebook_no_names [OF u, of parse] u
    submission_author_empty_list [OF assms, of adict]
  show ?thesis by blast
qed

theorem empty_author_list_raises_witness:
  "(\<exists>r \<in> set (frame5 @ [doc_no_authors]). authors_parsed r = []) \<and>
   unique_names remdups (frame5 @ [doc_no_authors]) = Inl TypeError \<and>
   submission_author (author_dict [(''Doe'', ''A.''), (''Smith'', ''J.'')])
     (frame5 @ [doc_no_authors]) = Inl TypeError \<and>
   raised (notebook sample_parse remdups (frame5 @ [doc_no_authors])) = Some TypeError \<and>
   author_tbl (notebook sample_parse remdups (frame5 @ [doc_no_authors])) = None"
proof -
  have e: "\<exists>r \<in> set (frame5 @ [doc_no_authors]). authors_parsed r = []"
    by (simp add: sample_defs)
  have sa: "submission_author (author_dict [(''Doe'', ''A.''), (''Smith'', ''J.'')])
              (frame5 @ [doc_no_authors]) = Inl TypeError"
    unfolding frame5_author_dict
    by (simp add: submission_author_def lookup_author_def sample_defs)
  have sub: "\<exists>tbl. submission sample_parse (frame5 @ [doc_no_authors]) = Inr tbl"
    by (rule submission_Inr) (simp add: date_ok_def sample_defs)
  have nb: "raised (notebook sample_parse remdups (frame5 @ [doc_no_authors])) = Some TypeError"
    using sub unique_names_empty_list [OF e, of remdups]
    by (auto simp: notebook_def frame5_def)
  show ?thesis
    using e sa nb
      empty_author_list_raises [OF e, of remdups
        "author_dict [(''Doe'', ''A.''), (''Smith'', ''J.'')]" sample_parse]
    by simp
qed

end
